theory Spec2Isabelle
  imports Main "HOL-Library.Word" "HOL-Library.AList"
begin

section \<open>TONoo1: 1-out-of-N oblivious transfer (src/TONoo1/TONoo1.py)\<close>

text \<open>
  The module is glue code around three external libraries: PyNaCl's Ed25519 bindings
  (\<^verbatim>\<open>crypto_scalarmult_ed25519\<close>, \<^verbatim>\<open>crypto_scalarmult_ed25519_base\<close>,
  \<^verbatim>\<open>crypto_core_ed25519_add\<close>, \<^verbatim>\<open>crypto_core_ed25519_sub\<close>), PyNaCl's
  \<^verbatim>\<open>SecretBox\<close>, and \<^verbatim>\<open>hashlib.blake2b\<close>, plus Python's own UTF-8 codec. None of
  them is code of the repository, so they are a parameter of the model: a record \<open>lib\<close>
  with one field per library call, each returning either the Python exception it raises
  or its value. Every function of the module is translated statement by statement on top
  of that record. What a theorem needs to know about the libraries is stated as an
  explicit law about these fields.

  Python values are modelled as follows.
  \<^item> \<^verbatim>\<open>bytes\<close> is a list of 8-bit words.
  \<^item> \<^verbatim>\<open>str\<close> is \<open>string\<close>; \<^verbatim>\<open>s.encode('utf8')\<close> and \<^verbatim>\<open>b.decode()\<close> are library calls,
    and how a Python string is written as a \<open>string\<close> is theirs to say.
  \<^item> A \<^verbatim>\<open>dict\<close> is an association list in insertion order; \<^verbatim>\<open>d[k] = v\<close> is
    \<open>AList.update\<close>, which replaces the value of a key that is present where it stands
    and appends a new key at the end, as Python's dict does.
  \<^item> Randomness (\<^verbatim>\<open>nacl.utils.random\<close>, the nonce drawn inside
    \<^verbatim>\<open>SecretBox.encrypt\<close>) is an explicit argument.
  \<^item> An exception is \<open>Inl\<close> of the exception class; a function that mutates its
    receiver or its arguments returns them updated, also when it raises.
\<close>

type_synonym byte = "8 word"
type_synonym bytes = "byte list"
type_synonym str = string

text \<open>
  The exception classes that can leave the module. In the vocabulary of the
  specification: \<open>TypeError\<close> from the length check of a scalar argument is
  \<^emph>\<open>InvalidIndex\<close>, \<open>RuntimeError\<close> (``Unexpected library error'') is
  \<^emph>\<open>InvalidPoint\<close>, \<open>KeyError\<close> from the dict lookup is \<^emph>\<open>NoMatchingCipher\<close>,
  \<open>CryptoError\<close> is \<^emph>\<open>AuthFailed\<close>. The module raises nothing of its own.
\<close>

datatype error =
    TypeError
  | ValueError
  | RuntimeError
  | KeyError
  | CryptoError
  | UnicodeEncodeError
  | UnicodeDecodeError

text \<open>
  The keys of the cipher dict are \<^verbatim>\<open>bytes\<close> when response indices are concealed and
  \<^verbatim>\<open>str\<close> otherwise; in Python a \<^verbatim>\<open>str\<close> never equals a \<^verbatim>\<open>bytes\<close>.
\<close>

datatype dictkey = StrKey str | BytesKey bytes

record lib =
  crypto_scalarmult_ed25519_base :: "bytes \<Rightarrow> error + bytes"
  crypto_scalarmult_ed25519 :: "bytes \<Rightarrow> bytes \<Rightarrow> error + bytes"
  crypto_core_ed25519_add :: "bytes \<Rightarrow> bytes \<Rightarrow> error + bytes"
  crypto_core_ed25519_sub :: "bytes \<Rightarrow> bytes \<Rightarrow> error + bytes"
  blake2b :: "bytes \<Rightarrow> nat \<Rightarrow> bytes \<Rightarrow> error + bytes"
  SecretBox :: "bytes \<Rightarrow> error + bytes"
  secretbox_encrypt :: "bytes \<Rightarrow> bytes \<Rightarrow> bytes \<Rightarrow> error + bytes"
  secretbox_decrypt :: "bytes \<Rightarrow> bytes \<Rightarrow> error + bytes"
  encode_utf8 :: "str \<Rightarrow> error + bytes"
  decode_utf8 :: "bytes \<Rightarrow> error + str"

text \<open>
  \<open>blake2b L data digest_size key\<close> is \<^verbatim>\<open>blake2b(data, digest_size=..., key=...).digest()\<close>;
  \<open>SecretBox L key\<close> is the constructor \<^verbatim>\<open>SecretBox(key)\<close>, which checks the key, and
  the box it returns is written as its key; \<open>secretbox_encrypt L box nonce plaintext\<close> is
  \<^verbatim>\<open>box.encrypt(plaintext)\<close> with the nonce it draws, and \<open>secretbox_decrypt L box c\<close>
  is \<^verbatim>\<open>box.decrypt(c)\<close>.
\<close>

subsection \<open>Module level\<close>

definition CONCEAL_RESPONSE_INDICES :: bool where
  "CONCEAL_RESPONSE_INDICES = True"

text \<open>
  The flag is a module global that both classes read at each call; the functions below
  take its value as the argument \<open>conceal\<close>.
\<close>

text \<open>\<^verbatim>\<open>nacl.public.PrivateKey.SIZE\<close>, the digest size that \<open>calcMac\<close> asks for.\<close>

definition PrivateKey_SIZE :: nat where
  "PrivateKey_SIZE = 32"

definition calcMac :: "lib \<Rightarrow> bytes \<Rightarrow> bytes \<Rightarrow> error + bytes" where
  "calcMac L inputBytes keyBytes = blake2b L inputBytes PrivateKey_SIZE keyBytes"

text \<open>
  \<^verbatim>\<open>b'\0' * (32 - len(entryIndexBytes)) + entryIndexBytes\<close>: a negative repeat count
  gives the empty byte string in Python, as the truncating subtraction does here.
\<close>

definition pad32 :: "bytes \<Rightarrow> bytes" where
  "pad32 entryIndexBytes = replicate (32 - length entryIndexBytes) 0 @ entryIndexBytes"

subsection \<open>class Receiver\<close>

record receiver =
  Receiver_senderOTKey :: bytes
  Receiver_otSecrets :: "(str \<times> bytes) list"

definition Receiver_init :: "bytes \<Rightarrow> receiver" where
  "Receiver_init senderOTKey =
     \<lparr>Receiver_senderOTKey = senderOTKey, Receiver_otSecrets = []\<rparr>"

text \<open>
  \<open>getRequestOTKey L self entryIndex sk\<close>, with \<open>sk\<close> the 32 random bytes drawn at
  line 65. The secret is stored (line 67) before the request key is computed
  (lines 68 to 73).
\<close>

definition getRequestOTKey ::
  "lib \<Rightarrow> receiver \<Rightarrow> str \<Rightarrow> bytes \<Rightarrow> receiver \<times> (error + bytes)" where
  "getRequestOTKey L self entryIndex sk =
     (case encode_utf8 L entryIndex of
        Inl e \<Rightarrow> (self, Inl e)
      | Inr entryIndexBytes \<Rightarrow>
     (case crypto_scalarmult_ed25519_base L sk of
        Inl e \<Rightarrow> (self, Inl e)
      | Inr pk \<Rightarrow>
     (case crypto_scalarmult_ed25519 L sk (Receiver_senderOTKey self) of
        Inl e \<Rightarrow> (self, Inl e)
      | Inr q \<Rightarrow>
     (let self' = self\<lparr>Receiver_otSecrets :=
                        AList.update entryIndex q (Receiver_otSecrets self)\<rparr>
      in case crypto_scalarmult_ed25519 L (pad32 entryIndexBytes)
                (Receiver_senderOTKey self) of
           Inl e \<Rightarrow> (self', Inl e)
         | Inr a \<Rightarrow> (self', crypto_core_ed25519_add L a pk)))))"

text \<open>
  The body of the loop of \<open>decryptResponse\<close> (lines 85 to 89) for one item of
  \<open>otSecrets\<close>: the key to look up, the lookup, the decryption, the decoding.
\<close>

definition lookup_key :: "lib \<Rightarrow> bool \<Rightarrow> str \<Rightarrow> bytes \<Rightarrow> error + dictkey" where
  "lookup_key L conceal entryIndex otSecret =
     (if conceal then
        (case encode_utf8 L entryIndex of
           Inl e \<Rightarrow> Inl e
         | Inr b \<Rightarrow>
        (case calcMac L b otSecret of
           Inl e \<Rightarrow> Inl e
         | Inr m \<Rightarrow> Inr (BytesKey m)))
      else Inr (StrKey entryIndex))"

definition decrypt_item ::
  "lib \<Rightarrow> bool \<Rightarrow> (dictkey \<times> bytes) list \<Rightarrow> str \<Rightarrow> bytes \<Rightarrow> error + str" where
  "decrypt_item L conceal ciphers entryIndex otSecret =
     (case lookup_key L conceal entryIndex otSecret of
        Inl e \<Rightarrow> Inl e
      | Inr k \<Rightarrow>
     (case map_of ciphers k of
        None \<Rightarrow> Inl KeyError
      | Some c \<Rightarrow>
     (case SecretBox L otSecret of
        Inl e \<Rightarrow> Inl e
      | Inr box \<Rightarrow>
     (case secretbox_decrypt L box c of
        Inl e \<Rightarrow> Inl e
      | Inr p \<Rightarrow> decode_utf8 L p))))"

fun decrypt_loop ::
  "lib \<Rightarrow> bool \<Rightarrow> (dictkey \<times> bytes) list \<Rightarrow> (str \<times> bytes) list \<Rightarrow>
   (str \<times> str) list \<Rightarrow> error + (str \<times> str) list" where
  "decrypt_loop L conceal ciphers [] D = Inr D"
| "decrypt_loop L conceal ciphers ((entryIndex, otSecret) # items) D =
     (case decrypt_item L conceal ciphers entryIndex otSecret of
        Inl e \<Rightarrow> Inl e
      | Inr v \<Rightarrow> decrypt_loop L conceal ciphers items (AList.update entryIndex v D))"

text \<open>
  \<open>decryptResponse\<close> assigns no attribute of \<open>self\<close> and deletes nothing from
  \<open>otSecrets\<close>: the receiver it returns is the receiver it was given.
\<close>

definition decryptResponse ::
  "lib \<Rightarrow> bool \<Rightarrow> receiver \<Rightarrow> (dictkey \<times> bytes) list \<Rightarrow>
   receiver \<times> (error + (str \<times> str) list)" where
  "decryptResponse L conceal self ciphers =
     (self, decrypt_loop L conceal ciphers (Receiver_otSecrets self) [])"

subsection \<open>class Sender\<close>

record sender =
  Sender_senderOTSecret :: bytes
  Sender_senderOTKey :: bytes
  Sender_senderOTU :: bytes

text \<open>\<open>Sender_init L y\<close>, with \<open>y\<close> the 32 random bytes drawn at line 104.\<close>

definition Sender_init :: "lib \<Rightarrow> bytes \<Rightarrow> error + sender" where
  "Sender_init L y =
     (case crypto_scalarmult_ed25519_base L y of
        Inl e \<Rightarrow> Inl e
      | Inr S \<Rightarrow>
     (case crypto_scalarmult_ed25519 L y S of
        Inl e \<Rightarrow> Inl e
      | Inr U \<Rightarrow>
          Inr \<lparr>Sender_senderOTSecret = y, Sender_senderOTKey = S, Sender_senderOTU = U\<rparr>))"

definition register :: "sender \<Rightarrow> sender \<times> bytes" where
  "register self = (self, Sender_senderOTKey self)"

text \<open>
  An entry is a dict with the keys \<^verbatim>\<open>'index'\<close> and \<^verbatim>\<open>'value'\<close> and, once cached,
  \<^verbatim>\<open>'indexOTU'\<close>. The docstring of \<open>retrieve\<close> requires the first two keys, with
  strings as values; an entry without them is not a value of this type.
\<close>

record entry =
  index :: str
  val :: str
  indexOTU :: "bytes option"

text \<open>
  Lines 150 to 156: \<^verbatim>\<open>entry['indexOTU']\<close> is computed and stored only when the key is
  absent (the \<^verbatim>\<open>except\<close> branch); an entry that has the key is left as it is.
\<close>

definition cache_indexOTU :: "lib \<Rightarrow> sender \<Rightarrow> bytes \<Rightarrow> entry \<Rightarrow> error + entry" where
  "cache_indexOTU L self entryIndexBytes e =
     (case indexOTU e of
        Some tmp \<Rightarrow> Inr e
      | None \<Rightarrow>
     (case crypto_scalarmult_ed25519 L (pad32 entryIndexBytes) (Sender_senderOTU self) of
        Inl err \<Rightarrow> Inl err
      | Inr u \<Rightarrow> Inr (e\<lparr>indexOTU := Some u\<rparr>)))"

text \<open>Lines 162 to 168: the key under which the ciphertext is stored.\<close>

definition response_index :: "lib \<Rightarrow> bool \<Rightarrow> str \<Rightarrow> bytes \<Rightarrow> bytes \<Rightarrow> error + dictkey" where
  "response_index L conceal idx entryIndexBytes K =
     (if conceal then
        (case calcMac L entryIndexBytes K of
           Inl err \<Rightarrow> Inl err
         | Inr m \<Rightarrow> Inr (BytesKey m))
      else Inr (StrKey idx))"

text \<open>
  Lines 157 to 168, on an entry that has its \<^verbatim>\<open>'indexOTU'\<close>: the entry key \<open>K\<close>, the
  ciphertext and the response index.
\<close>

definition seal_entry ::
  "lib \<Rightarrow> bool \<Rightarrow> bytes \<Rightarrow> bytes \<Rightarrow> bytes \<Rightarrow> entry \<Rightarrow> bytes \<Rightarrow> error + dictkey \<times> bytes" where
  "seal_entry L conceal sharedOTSecret nonce entryIndexBytes e u =
     (case crypto_core_ed25519_sub L sharedOTSecret u of
        Inl err \<Rightarrow> Inl err
      | Inr K \<Rightarrow>
     (case SecretBox L K of
        Inl err \<Rightarrow> Inl err
      | Inr box \<Rightarrow>
     (case encode_utf8 L (val e) of
        Inl err \<Rightarrow> Inl err
      | Inr plaintext \<Rightarrow>
     (case secretbox_encrypt L box nonce plaintext of
        Inl err \<Rightarrow> Inl err
      | Inr c \<Rightarrow>
     (case response_index L conceal (index e) entryIndexBytes K of
        Inl err \<Rightarrow> Inl err
      | Inr i \<Rightarrow> Inr (i, c))))))"

text \<open>
  The body of the loop of \<open>retrieve\<close> (lines 149 to 169) for one entry: the entry as it
  is left, and the pair to store in \<open>C\<close> or the exception.
\<close>

definition retrieve_entry ::
  "lib \<Rightarrow> bool \<Rightarrow> sender \<Rightarrow> bytes \<Rightarrow> bytes \<Rightarrow> entry \<Rightarrow> entry \<times> (error + dictkey \<times> bytes)" where
  "retrieve_entry L conceal self sharedOTSecret nonce e =
     (case encode_utf8 L (index e) of
        Inl err \<Rightarrow> (e, Inl err)
      | Inr entryIndexBytes \<Rightarrow>
     (case cache_indexOTU L self entryIndexBytes e of
        Inl err \<Rightarrow> (e, Inl err)
      | Inr e' \<Rightarrow>
     (case indexOTU e' of
        None \<Rightarrow> (e', Inl KeyError)
      | Some u \<Rightarrow> (e', seal_entry L conceal sharedOTSecret nonce entryIndexBytes e' u))))"

text \<open>
  The loop of \<open>retrieve\<close>. \<open>nonce n\<close> is the nonce drawn for the entry at position \<open>n\<close>.
  An exception leaves the loop; the entries processed so far keep what was stored in
  them.
\<close>

fun retrieve_loop ::
  "lib \<Rightarrow> bool \<Rightarrow> sender \<Rightarrow> bytes \<Rightarrow> (nat \<Rightarrow> bytes) \<Rightarrow> nat \<Rightarrow> entry list \<Rightarrow>
   (dictkey \<times> bytes) list \<Rightarrow> entry list \<times> (error + (dictkey \<times> bytes) list)" where
  "retrieve_loop L conceal self sharedOTSecret nonce n [] C = ([], Inr C)"
| "retrieve_loop L conceal self sharedOTSecret nonce n (e # es) C =
     (case retrieve_entry L conceal self sharedOTSecret (nonce n) e of
        (e', Inl err) \<Rightarrow> (e' # es, Inl err)
      | (e', Inr (i, c)) \<Rightarrow>
          (case retrieve_loop L conceal self sharedOTSecret nonce (Suc n) es
                  (AList.update i c C) of
             (es', r) \<Rightarrow> (e' # es', r)))"

text \<open>
  \<open>retrieve L conceal nonce self requestOTKey entries\<close>: the sender (no attribute of
  \<open>self\<close> is assigned), the entries as the call leaves them, and the dict \<open>C\<close> or the
  exception.
\<close>

definition retrieve ::
  "lib \<Rightarrow> bool \<Rightarrow> (nat \<Rightarrow> bytes) \<Rightarrow> sender \<Rightarrow> bytes \<Rightarrow> entry list \<Rightarrow>
   sender \<times> entry list \<times> (error + (dictkey \<times> bytes) list)" where
  "retrieve L conceal nonce self requestOTKey entries =
     (case crypto_scalarmult_ed25519 L (Sender_senderOTSecret self) requestOTKey of
        Inl err \<Rightarrow> (self, entries, Inl err)
      | Inr sharedOTSecret \<Rightarrow>
          (self, retrieve_loop L conceal self sharedOTSecret nonce 0 entries []))"


subsection \<open>An executable instance of the libraries\<close>

text \<open>
  To run the module on concrete inputs the library record is instantiated with a small
  model: the points are the residues modulo the prime 251 (generator 1) in place of the
  prime-order subgroup of Ed25519, encoded as one byte followed by 31 zero bytes; a
  scalar acts as a multiplier between 1 and 250, so that, as with the clamped scalars of
  the library, a valid point is never sent to the neutral element. The length checks and
  their order are those of the PyNaCl bindings. The keyed hash and the secret box are
  stand-ins with the interface of the real ones and nothing of their strength. A
  \<^verbatim>\<open>str\<close> is written as the bytes of its UTF-8 encoding, so that encoding and decoding
  only change the type. The instance serves to evaluate the functions of the module on
  inputs; the theorems are about every library that satisfies the laws they name.
\<close>

definition pt_dec :: "bytes \<Rightarrow> nat option" where
  "pt_dec p =
     (if length p = 32 \<and> drop 1 p = replicate 31 0 \<and> unat (hd p) < 251
      then Some (unat (hd p)) else None)"

definition pt_enc :: "nat \<Rightarrow> bytes" where
  "pt_enc k = of_nat k # replicate 31 0"

definition sc_val :: "bytes \<Rightarrow> nat" where
  "sc_val n = Suc (sum_list (map unat n) mod 250)"

definition mini_scalarmult :: "bytes \<Rightarrow> bytes \<Rightarrow> error + bytes" where
  "mini_scalarmult n p =
     (if length n \<noteq> 32 then Inl TypeError
      else if length p \<noteq> 32 then Inl TypeError
      else (case pt_dec p of
              None \<Rightarrow> Inl RuntimeError
            | Some k \<Rightarrow>
                if k = 0 then Inl RuntimeError
                else Inr (pt_enc (sc_val n * k mod 251))))"

definition mini_scalarmult_base :: "bytes \<Rightarrow> error + bytes" where
  "mini_scalarmult_base n =
     (if length n \<noteq> 32 then Inl TypeError else Inr (pt_enc (sc_val n mod 251)))"

definition mini_add :: "bytes \<Rightarrow> bytes \<Rightarrow> error + bytes" where
  "mini_add p q =
     (if length p \<noteq> 32 \<or> length q \<noteq> 32 then Inl TypeError
      else (case pt_dec p of
              None \<Rightarrow> Inl RuntimeError
            | Some a \<Rightarrow>
           (case pt_dec q of
              None \<Rightarrow> Inl RuntimeError
            | Some b \<Rightarrow> Inr (pt_enc ((a + b) mod 251)))))"

definition mini_sub :: "bytes \<Rightarrow> bytes \<Rightarrow> error + bytes" where
  "mini_sub p q =
     (if length p \<noteq> 32 \<or> length q \<noteq> 32 then Inl TypeError
      else (case pt_dec p of
              None \<Rightarrow> Inl RuntimeError
            | Some a \<Rightarrow>
           (case pt_dec q of
              None \<Rightarrow> Inl RuntimeError
            | Some b \<Rightarrow> Inr (pt_enc ((a + (251 - b)) mod 251)))))"

definition mini_blake2b :: "bytes \<Rightarrow> nat \<Rightarrow> bytes \<Rightarrow> error + bytes" where
  "mini_blake2b d n k =
     (if n = 0 \<or> 64 < n \<or> 64 < length k then Inl ValueError
      else Inr (take n (map2 (+) (k @ replicate n 0) (d @ replicate n 0))))"

definition mini_SecretBox :: "bytes \<Rightarrow> error + bytes" where
  "mini_SecretBox k = (if length k \<noteq> 32 then Inl ValueError else Inr k)"

definition mini_encrypt :: "bytes \<Rightarrow> bytes \<Rightarrow> bytes \<Rightarrow> error + bytes" where
  "mini_encrypt box nonce m =
     (if length nonce \<noteq> 24 then Inl ValueError
      else Inr (nonce @ take 16 box @ map (\<lambda>b. b + hd box) m))"

definition mini_decrypt :: "bytes \<Rightarrow> bytes \<Rightarrow> error + bytes" where
  "mini_decrypt box c =
     (if length c < 40 \<or> take 16 (drop 24 c) \<noteq> take 16 box then Inl CryptoError
      else Inr (map (\<lambda>b. b - hd box) (drop 40 c)))"

definition mini_encode :: "str \<Rightarrow> error + bytes" where
  "mini_encode s = Inr (map (\<lambda>c. of_nat (of_char c)) s)"

definition mini_decode :: "bytes \<Rightarrow> error + str" where
  "mini_decode b = Inr (map (\<lambda>w. char_of (unat w)) b)"

definition mini :: lib where
  "mini =
     \<lparr>crypto_scalarmult_ed25519_base = mini_scalarmult_base,
      crypto_scalarmult_ed25519 = mini_scalarmult,
      crypto_core_ed25519_add = mini_add,
      crypto_core_ed25519_sub = mini_sub,
      blake2b = mini_blake2b,
      SecretBox = mini_SecretBox,
      secretbox_encrypt = mini_encrypt,
      secretbox_decrypt = mini_decrypt,
      encode_utf8 = mini_encode,
      decode_utf8 = mini_decode\<rparr>"

text \<open>Fixed inputs for the runs below: two scalars and the nonces.\<close>

definition y0 :: bytes where
  "y0 = 6 # replicate 31 0"

definition x0 :: bytes where
  "x0 = 10 # replicate 31 0"

definition x1 :: bytes where
  "x1 = 20 # replicate 31 0"

definition nonce0 :: "nat \<Rightarrow> bytes" where
  "nonce0 n = replicate 24 (of_nat n)"

subsection \<open>What the theorems assume of the libraries\<close>

text \<open>
  Each law relates the results of calls that return. None says that a call returns on
  an input taken by itself; \<open>results_are_points\<close> says that a call returns when two
  other calls did.

  \<open>scalar_length_law\<close>: the binding checks first that the scalar has 32 bytes and
  raises \<^verbatim>\<open>TypeError\<close> otherwise.
\<close>

definition scalar_length_law :: "lib \<Rightarrow> bool" where
  "scalar_length_law L \<longleftrightarrow>
     (\<forall>n p. length n \<noteq> 32 \<longrightarrow> crypto_scalarmult_ed25519 L n p = Inl TypeError)"









subsection \<open>The life of a sender\<close>

text \<open>
  The public methods of a \<open>Sender\<close> and the state it is in after a sequence of calls.
\<close>

datatype sender_call = Register | Retrieve bytes "entry list"

fun sender_after ::
  "lib \<Rightarrow> bool \<Rightarrow> (nat \<Rightarrow> bytes) \<Rightarrow> sender \<Rightarrow> sender_call list \<Rightarrow> sender" where
  "sender_after L conceal nonce self [] = self"
| "sender_after L conceal nonce self (Register # calls) =
     sender_after L conceal nonce (fst (register self)) calls"
| "sender_after L conceal nonce self (Retrieve requestOTKey entries # calls) =
     sender_after L conceal nonce
       (fst (retrieve L conceal nonce self requestOTKey entries)) calls"

subsection \<open>Concrete runs\<close>

text \<open>
  The sender built from \<open>y0\<close>, and the receiver that asked this sender for the index
  \<^verbatim>\<open>"a"\<close> with the random scalar \<open>x0\<close>: its state, its request key, and the cipher
  dict the sender returns for the one entry \<^verbatim>\<open>{"index": "a", "value": "hello"}\<close>.
\<close>

definition sender0 :: sender where
  "sender0 =
     \<lparr>Sender_senderOTSecret = y0, Sender_senderOTKey = pt_enc 7,
      Sender_senderOTU = pt_enc 49\<rparr>"

definition receiver_a :: receiver where
  "receiver_a =
     \<lparr>Receiver_senderOTKey = pt_enc 7, Receiver_otSecrets = [(''a'', pt_enc 77)]\<rparr>"

definition request_a :: bytes where
  "request_a = pt_enc 195"

definition entries_a :: "entry list" where
  "entries_a = [\<lparr>index = ''a'', val = ''hello'', indexOTU = None\<rparr>]"

definition ciphers_a :: "(dictkey \<times> bytes) list" where
  "ciphers_a =
     [(BytesKey (174 # replicate 31 0),
       replicate 24 0 @ 77 # replicate 15 0 @ [181, 178, 185, 185, 188])]"

text \<open>
  An index of 33 bytes; two entries with the same index \<^verbatim>\<open>"a"\<close> and the cipher dict
  returned for them; an entry with the long index that carries an \<^verbatim>\<open>'indexOTU'\<close>, and
  the cipher dict returned for it.
\<close>

definition idx33 :: str where
  "idx33 = replicate 33 (CHR ''a'')"

definition entries_dup :: "entry list" where
  "entries_dup =
     [\<lparr>index = ''a'', val = ''x'', indexOTU = None\<rparr>,
      \<lparr>index = ''a'', val = ''y'', indexOTU = None\<rparr>]"

definition ciphers_dup :: "(dictkey \<times> bytes) list" where
  "ciphers_dup =
     [(BytesKey (174 # replicate 31 0), replicate 24 1 @ 77 # replicate 15 0 @ [198])]"

definition entries_long :: "entry list" where
  "entries_long = [\<lparr>index = idx33, val = ''v'', indexOTU = Some (pt_enc 49)\<rparr>]"

definition ciphers_long :: "(dictkey \<times> bytes) list" where
  "ciphers_long =
     [(BytesKey (158 # replicate 31 97), replicate 24 0 @ 61 # replicate 15 0 @ [179])]"

text \<open>Entries with the index \<^verbatim>\<open>"a"\<close>, their response index and their ciphertexts.\<close>

definition entry_a :: "str \<Rightarrow> bytes option \<Rightarrow> entry" where
  "entry_a v u = \<lparr>index = ''a'', val = v, indexOTU = u\<rparr>"

definition key_a :: dictkey where
  "key_a = BytesKey (174 # replicate 31 0)"

definition box_a :: "nat \<Rightarrow> bytes \<Rightarrow> bytes" where
  "box_a n body = nonce0 n @ 77 # replicate 15 0 @ body"

subsection \<open>Entries that carry an indexOTU\<close>


subsection \<open>More concrete runs\<close>

text \<open>
  Three entries \<^verbatim>\<open>k1\<close>, \<^verbatim>\<open>k2\<close>, \<^verbatim>\<open>k3\<close>, the receiver that asked for \<^verbatim>\<open>k2\<close>
  with the random scalar \<open>x0\<close>, its request key and the cipher dict returned for it;
  and the receiver \<open>receiver_a\<close> after it asked for \<^verbatim>\<open>"a"\<close> a second time, with the
  random scalar \<open>x1\<close>.
\<close>

definition entries_k :: "entry list" where
  "entries_k =
     [\<lparr>index = ''k1'', val = ''v1'', indexOTU = None\<rparr>,
      \<lparr>index = ''k2'', val = ''v2'', indexOTU = None\<rparr>,
      \<lparr>index = ''k3'', val = ''v3'', indexOTU = None\<rparr>]"

definition receiver_k2 :: receiver where
  "receiver_k2 =
     \<lparr>Receiver_senderOTKey = pt_enc 7, Receiver_otSecrets = [(''k2'', pt_enc 77)]\<rparr>"

definition request_k2 :: bytes where
  "request_k2 = pt_enc 113"

definition ciphers_k2 :: "(dictkey \<times> bytes) list" where
  "ciphers_k2 =
     [(BytesKey (233 # 49 # replicate 30 0),
       replicate 24 0 @ 126 # replicate 15 0 @ [244, 175]),
      (BytesKey (184 # 50 # replicate 30 0),
       replicate 24 1 @ 77 # replicate 15 0 @ [195, 127]),
      (BytesKey (135 # 51 # replicate 30 0),
       replicate 24 2 @ 28 # replicate 15 0 @ [146, 79])]"


subsection \<open>Runs on which the calls do not agree\<close>

text \<open>
  A second sender, built from \<open>yb\<close>, and the three entries as a call of its \<open>retrieve\<close>
  leaves them, each with the \<^verbatim>\<open>'indexOTU'\<close> of that sender; the cipher dict that the
  sender \<open>sender0\<close> returns for these entries and the request for \<^verbatim>\<open>k2\<close>.
\<close>

definition yb :: bytes where
  "yb = 1 # replicate 31 0"

definition sender_b :: sender where
  "sender_b =
     \<lparr>Sender_senderOTSecret = yb, Sender_senderOTKey = pt_enc 2,
      Sender_senderOTU = pt_enc 4\<rparr>"

definition entries_kb :: "entry list" where
  "entries_kb =
     [\<lparr>index = ''k1'', val = ''v1'', indexOTU = Some (pt_enc 126)\<rparr>,
      \<lparr>index = ''k2'', val = ''v2'', indexOTU = Some (pt_enc 130)\<rparr>,
      \<lparr>index = ''k3'', val = ''v3'', indexOTU = Some (pt_enc 134)\<rparr>]"

definition ciphers_kb :: "(dictkey \<times> bytes) list" where
  "ciphers_kb =
     [(BytesKey (14 # 49 # replicate 30 0),
       replicate 24 0 @ 163 # replicate 15 0 @ [25, 212]),
      (BytesKey (10 # 50 # replicate 30 0),
       replicate 24 1 @ 159 # replicate 15 0 @ [21, 209]),
      (BytesKey (6 # 51 # replicate 30 0),
       replicate 24 2 @ 155 # replicate 15 0 @ [17, 206])]"

text \<open>
  A receiver that asked for \<^verbatim>\<open>k1\<close> with the random scalar \<open>x1\<close>, and the same receiver
  after it asked for \<^verbatim>\<open>k2\<close> with \<open>x0\<close>.
\<close>

definition receiver_k1 :: receiver where
  "receiver_k1 =
     \<lparr>Receiver_senderOTKey = pt_enc 7, Receiver_otSecrets = [(''k1'', pt_enc 147)]\<rparr>"

definition receiver_k12 :: receiver where
  "receiver_k12 =
     \<lparr>Receiver_senderOTKey = pt_enc 7,
      Receiver_otSecrets = [(''k1'', pt_enc 147), (''k2'', pt_enc 77)]\<rparr>"

text \<open>Random bytes other than \<open>x0\<close> that act as the same scalar.\<close>

definition x0b :: bytes where
  "x0b = 0 # 10 # replicate 30 0"

section \<open>Properties\<close>

subsection \<open>The instance satisfies the laws\<close>












lemma mini_simps:
  "crypto_scalarmult_ed25519_base mini = mini_scalarmult_base"
  "crypto_scalarmult_ed25519 mini = mini_scalarmult"
  "crypto_core_ed25519_add mini = mini_add"
  "crypto_core_ed25519_sub mini = mini_sub"
  "blake2b mini = mini_blake2b"
  "SecretBox mini = mini_SecretBox"
  "secretbox_encrypt mini = mini_encrypt"
  "secretbox_decrypt mini = mini_decrypt"
  "encode_utf8 mini = mini_encode"
  "decode_utf8 mini = mini_decode"
  by (simp_all add: mini_def)

lemma mini_scalar_length_law: "scalar_length_law mini"
  by (simp add: scalar_length_law_def mini_simps mini_scalarmult_def)









subsection \<open>The sender's state\<close>

lemma cache_indexOTU_fields:
  "cache_indexOTU L self b e = Inr e' \<Longrightarrow> index e' = index e \<and> val e' = val e"
  by (auto simp: cache_indexOTU_def split: option.splits sum.splits)

lemma retrieve_entry_fields:
  "retrieve_entry L conceal self T n e = (e', r) \<Longrightarrow> index e' = index e \<and> val e' = val e"
  by (auto simp: retrieve_entry_def split: sum.splits option.splits
           dest: cache_indexOTU_fields)

lemma retrieve_loop_fields:
  "retrieve_loop L conceal self T nonce n es C = (es', r) \<Longrightarrow>
     map index es' = map index es \<and> map val es' = map val es"
proof (induction es arbitrary: n C es' r)
  case Nil
  then show ?case by simp
next
  case (Cons e es)
  obtain e' r1 where step: "retrieve_entry L conceal self T (nonce n) e = (e', r1)"
    by (cases "retrieve_entry L conceal self T (nonce n) e")
  note f = retrieve_entry_fields [OF step]
  show ?case
  proof (cases r1)
    case (Inl err)
    with Cons.prems step f show ?thesis by auto
  next
    case (Inr p)
    obtain i c where p: "p = (i, c)" by (cases p)
    obtain es2 r2 where rest:
      "retrieve_loop L conceal self T nonce (Suc n) es (AList.update i c C) = (es2, r2)"
      by (cases "retrieve_loop L conceal self T nonce (Suc n) es (AList.update i c C)")
    from Cons.prems step Inr p rest have "es' = e' # es2" by simp
    with Cons.IH [OF rest] f show ?thesis by simp
  qed
qed

lemma retrieve_sender: "fst (retrieve L conceal nonce self R E) = self"
  by (simp add: retrieve_def split: sum.splits)

lemma sender_after_same: "sender_after L conceal nonce self calls = self"
  by (induction calls arbitrary: self
        rule: sender_after.induct [where ?a0.0 = L and ?a1.0 = conceal and ?a2.0 = nonce])
     (simp_all add: register_def retrieve_sender)

lemma Sender_init_sender0: "Sender_init mini y0 = Inr sender0"
  by code_simp

text \<open>
  C6. A sender that was constructed from the random bytes \<open>y\<close> holds \<open>y\<close>, the key
  \<open>S = y\<cdot>B\<close> and \<open>U = y\<cdot>S\<close>. After any sequence of calls of \<open>register\<close> and
  \<open>retrieve\<close> its state is the one it was constructed with, and \<open>register\<close> returns
  the same key \<open>S\<close>. A call of \<open>retrieve\<close> leaves the sender as it is, and leaves the
  \<open>index\<close> and the \<open>value\<close> of every entry as they are: what it may change is the
  \<open>indexOTU\<close> of its entries.
\<close>

theorem sender_state_fixed:
  assumes "Sender_init L y = Inr self"
  shows "Sender_senderOTSecret self = y
       \<and> crypto_scalarmult_ed25519_base L y = Inr (Sender_senderOTKey self)
       \<and> crypto_scalarmult_ed25519 L y (Sender_senderOTKey self) = Inr (Sender_senderOTU self)
       \<and> sender_after L conceal nonce self calls = self
       \<and> snd (register (sender_after L conceal nonce self calls)) = Sender_senderOTKey self
       \<and> fst (retrieve L conceal nonce self R E) = self
       \<and> map index (fst (snd (retrieve L conceal nonce self R E))) = map index E
       \<and> map val (fst (snd (retrieve L conceal nonce self R E))) = map val E"
proof -
  from assms have a: "Sender_senderOTSecret self = y"
      "crypto_scalarmult_ed25519_base L y = Inr (Sender_senderOTKey self)"
      "crypto_scalarmult_ed25519 L y (Sender_senderOTKey self) = Inr (Sender_senderOTU self)"
    by (auto simp: Sender_init_def split: sum.splits)
  have b: "sender_after L conceal nonce self calls = self"
    by (rule sender_after_same)
  have c: "map index (fst (snd (retrieve L conceal nonce self R E))) = map index E
       \<and> map val (fst (snd (retrieve L conceal nonce self R E))) = map val E"
  proof (cases "crypto_scalarmult_ed25519 L (Sender_senderOTSecret self) R")
    case (Inl err)
    then show ?thesis by (simp add: retrieve_def)
  next
    case (Inr T)
    obtain es' r where l: "retrieve_loop L conceal self T nonce 0 E [] = (es', r)"
      by (cases "retrieve_loop L conceal self T nonce 0 E []")
    from retrieve_loop_fields [OF l] Inr l show ?thesis by (simp add: retrieve_def)
  qed
  from a b c show ?thesis by (simp add: register_def retrieve_sender)
qed

text \<open>
  Witness for C6: the sender built from \<open>y0\<close>, through a call of \<open>register\<close>, a call of
  \<open>retrieve\<close> and a call of \<open>register\<close>.
\<close>

theorem sender_state_fixed_witness:
  "Sender_init mini y0 = Inr sender0
   \<and> sender_after mini True nonce0 sender0
       [Register, Retrieve request_a entries_a, Register] = sender0
   \<and> snd (register (sender_after mini True nonce0 sender0
       [Register, Retrieve request_a entries_a, Register])) = pt_enc 7
   \<and> map index (fst (snd (retrieve mini True nonce0 sender0 request_a entries_a))) = [''a'']"
proof -
  have k: "Sender_senderOTKey sender0 = pt_enc 7"
    by (simp add: sender0_def)
  have e: "map index entries_a = [''a'']"
    by (simp add: entries_a_def)
  from sender_state_fixed [OF Sender_init_sender0, of True nonce0
      "[Register, Retrieve request_a entries_a, Register]" request_a entries_a]
    Sender_init_sender0 k e
  show ?thesis by (simp del: sender_after.simps add: register_def)
qed

subsection \<open>The receiver's secrets\<close>

text \<open>
  C4, as the code has it. \<open>decryptResponse\<close> leaves the receiver as it found it, whether
  it returns or raises: every secret in \<open>otSecrets\<close>, the one of the index just
  decrypted included, is still stored after the call.
\<close>

theorem decryptResponse_keeps_secrets:
  "fst (decryptResponse L conceal self ciphers) = self"
  by (simp add: decryptResponse_def)

text \<open>
  The claim C4 as stated, that the secret is removed, is false on the run for the index
  \<^verbatim>\<open>"a"\<close>: the
  request is built, the sender answers it, the answer decrypts to \<^verbatim>\<open>{"a": "hello"}\<close>,
  and the secret is still there.
\<close>

theorem secret_not_removed_counterexample:
  "getRequestOTKey mini (Receiver_init (snd (register sender0))) ''a'' x0
     = (receiver_a, Inr request_a)
   \<and> snd (snd (retrieve mini True nonce0 sender0 request_a entries_a)) = Inr ciphers_a
   \<and> snd (decryptResponse mini True receiver_a ciphers_a) = Inr [(''a'', ''hello'')]
   \<and> map_of (Receiver_otSecrets (fst (decryptResponse mini True receiver_a ciphers_a))) ''a''
       = Some (pt_enc 77)"
  by code_simp

subsection \<open>The loop of retrieve\<close>

lemma cache_indexOTU_Inr:
  "cache_indexOTU L self b e = Inr e' \<longleftrightarrow>
     (case indexOTU e of
        Some u \<Rightarrow> e' = e
      | None \<Rightarrow> (\<exists>u. crypto_scalarmult_ed25519 L (pad32 b) (Sender_senderOTU self) = Inr u
                    \<and> e' = e\<lparr>indexOTU := Some u\<rparr>))"
  by (auto simp: cache_indexOTU_def split: option.splits sum.splits)

lemma cache_indexOTU_Some:
  "cache_indexOTU L self b e = Inr e' \<Longrightarrow> indexOTU e' \<noteq> None"
  by (auto simp: cache_indexOTU_Inr split: option.splits)

lemma retrieve_entry_Inr:
  "retrieve_entry L conceal self T n e = (e', Inr p) \<longleftrightarrow>
     (\<exists>b u. encode_utf8 L (index e) = Inr b \<and> cache_indexOTU L self b e = Inr e'
           \<and> indexOTU e' = Some u \<and> seal_entry L conceal T n b e' u = Inr p)"
  by (auto simp: retrieve_entry_def split: sum.splits option.splits)

lemma retrieve_entry_cached:
  "retrieve_entry L conceal self T n e = (e', Inr p) \<Longrightarrow> indexOTU e' \<noteq> None"
  by (auto simp: retrieve_entry_Inr)

lemma retrieve_entry_keeps_cached:
  "indexOTU e = Some u \<Longrightarrow> fst (retrieve_entry L conceal self T n e) = e"
  by (auto simp: retrieve_entry_def cache_indexOTU_def split: sum.splits option.splits)

lemma retrieve_loop_append_ok:
  "retrieve_loop L conceal self T nonce n es1 C0 = (es1', Inr C1) \<Longrightarrow>
   retrieve_loop L conceal self T nonce n (es1 @ es2) C0 =
     (es1' @ fst (retrieve_loop L conceal self T nonce (n + length es1) es2 C1),
      snd (retrieve_loop L conceal self T nonce (n + length es1) es2 C1))"
proof (induction es1 arbitrary: n C0 es1')
  case Nil
  then show ?case by simp
next
  case (Cons e es)
  obtain e' r1 where step: "retrieve_entry L conceal self T (nonce n) e = (e', r1)"
    by (cases "retrieve_entry L conceal self T (nonce n) e")
  show ?case
  proof (cases r1)
    case (Inl err)
    with Cons.prems step show ?thesis by simp
  next
    case (Inr p)
    obtain i c where p: "p = (i, c)" by (cases p)
    obtain es3 r3 where rest:
      "retrieve_loop L conceal self T nonce (Suc n) es (AList.update i c C0) = (es3, r3)"
      by (cases "retrieve_loop L conceal self T nonce (Suc n) es (AList.update i c C0)")
    from Cons.prems step Inr p rest have eq: "es1' = e' # es3" "r3 = Inr C1" by simp_all
    from Cons.IH [OF rest [unfolded eq(2)]] step Inr p
    show ?thesis by (simp add: eq split: prod.splits)
  qed
qed

lemma retrieve_loop_append_err:
  "retrieve_loop L conceal self T nonce n es1 C0 = (es1', Inl err) \<Longrightarrow>
   retrieve_loop L conceal self T nonce n (es1 @ es2) C0 = (es1' @ es2, Inl err)"
proof (induction es1 arbitrary: n C0 es1')
  case Nil
  then show ?case by simp
next
  case (Cons e es)
  obtain e' r1 where step: "retrieve_entry L conceal self T (nonce n) e = (e', r1)"
    by (cases "retrieve_entry L conceal self T (nonce n) e")
  show ?case
  proof (cases r1)
    case (Inl err')
    with Cons.prems step show ?thesis by simp
  next
    case (Inr p)
    obtain i c where p: "p = (i, c)" by (cases p)
    obtain es3 r3 where rest:
      "retrieve_loop L conceal self T nonce (Suc n) es (AList.update i c C0) = (es3, r3)"
      by (cases "retrieve_loop L conceal self T nonce (Suc n) es (AList.update i c C0)")
    from Cons.prems step Inr p rest have eq: "es1' = e' # es3" "r3 = Inl err" by simp_all
    from Cons.IH [OF rest [unfolded eq(2)]] step Inr p
    show ?thesis by (simp add: eq)
  qed
qed

lemma retrieve_loop_append_Inr:
  assumes "retrieve_loop L conceal self T nonce n (es1 @ es2) C0 = (es', Inr C)"
  shows "\<exists>es1' C1 es2'. retrieve_loop L conceal self T nonce n es1 C0 = (es1', Inr C1)
          \<and> retrieve_loop L conceal self T nonce (n + length es1) es2 C1 = (es2', Inr C)
          \<and> es' = es1' @ es2'"
proof -
  obtain es1' r1 where p: "retrieve_loop L conceal self T nonce n es1 C0 = (es1', r1)"
    by (cases "retrieve_loop L conceal self T nonce n es1 C0")
  show ?thesis
  proof (cases r1)
    case (Inl err)
    from retrieve_loop_append_err [OF p [unfolded Inl], of es2] assms show ?thesis by simp
  next
    case (Inr C1)
    from retrieve_loop_append_ok [OF p [unfolded Inr], of es2] assms p Inr
    show ?thesis by (cases "retrieve_loop L conceal self T nonce (n + length es1) es2 C1") auto
  qed
qed

lemma retrieve_loop_single:
  "retrieve_loop L conceal self T nonce n [e] C0 =
     (case retrieve_entry L conceal self T (nonce n) e of
        (e', Inl err) \<Rightarrow> ([e'], Inl err)
      | (e', Inr (i, c)) \<Rightarrow> ([e'], Inr (AList.update i c C0)))"
  by (simp split: prod.splits sum.splits)

lemma retrieve_loop_length:
  "retrieve_loop L conceal self T nonce n es C0 = (es', r) \<Longrightarrow> length es' = length es"
  by (drule retrieve_loop_fields) (auto dest: map_eq_imp_length_eq)

lemma retrieve_loop_all_cached:
  "retrieve_loop L conceal self T nonce n es C0 = (es', Inr C) \<Longrightarrow>
     \<forall>e\<in>set es'. indexOTU e \<noteq> None"
proof (induction es arbitrary: n C0 es')
  case Nil
  then show ?case by simp
next
  case (Cons e es)
  from retrieve_loop_append_Inr [of L conceal self T nonce n "[e]" es C0 es' C] Cons.prems
  obtain es1' C1 es2' where a: "retrieve_loop L conceal self T nonce n [e] C0 = (es1', Inr C1)"
    and b: "retrieve_loop L conceal self T nonce (n + length [e]) es C1 = (es2', Inr C)"
    and c: "es' = es1' @ es2'" by auto
  from a obtain e' p where "retrieve_entry L conceal self T (nonce n) e = (e', Inr p)" "es1' = [e']"
    by (auto simp: retrieve_loop_single split: prod.splits sum.splits)
  with retrieve_entry_cached Cons.IH [OF b] c show ?case by auto
qed

lemma retrieve_loop_keeps_cached:
  "\<forall>e\<in>set es. indexOTU e \<noteq> None \<Longrightarrow>
     fst (retrieve_loop L conceal self T nonce n es C0) = es"
proof (induction es arbitrary: n C0)
  case Nil
  then show ?case by simp
next
  case (Cons e es)
  then obtain u where u: "indexOTU e = Some u" by auto
  obtain e' r1 where step: "retrieve_entry L conceal self T (nonce n) e = (e', r1)"
    by (cases "retrieve_entry L conceal self T (nonce n) e")
  with retrieve_entry_keeps_cached [OF u, of L conceal self T "nonce n"] have e': "e' = e" by simp
  from Cons.prems have rest: "fst (retrieve_loop L conceal self T nonce (Suc n) es C') = es" for C'
    by (intro Cons.IH) simp
  from step e' rest show ?case
    by (cases r1) (simp_all add: case_prod_beta)
qed

subsection \<open>Duplicate and oversized indices, failing calls\<close>

lemma retrieve_unfold:
  "crypto_scalarmult_ed25519 L (Sender_senderOTSecret self) R = Inr T \<Longrightarrow>
   retrieve L conceal nonce self R E = (self, retrieve_loop L conceal self T nonce 0 E [])"
  by (simp add: retrieve_def)

lemma retrieve_InrD:
  "retrieve L conceal nonce self R E = (s, E', Inr C) \<Longrightarrow>
   \<exists>T. crypto_scalarmult_ed25519 L (Sender_senderOTSecret self) R = Inr T
     \<and> retrieve_loop L conceal self T nonce 0 E [] = (E', Inr C) \<and> s = self"
  by (auto simp: retrieve_def split: sum.splits)

lemma length_alist_update:
  "length (AList.update k v al) = (if k \<in> fst ` set al then length al else Suc (length al))"
  by (induct al) auto

text \<open>
  C2, as the code has it. \<open>retrieve\<close> has no check for duplicate indices. If the call
  returns on a list of entries and the loop body returns on one more entry, whether or not
  the index of that entry already occurs in the list, then the call returns on the
  extended list: the new ciphertext is stored under its response index, where it
  replaces the ciphertext of an earlier entry with the same response index.
\<close>

theorem retrieve_no_duplicate_check:
  assumes "retrieve L conceal nonce self R es = (self, es', Inr C)"
    and "crypto_scalarmult_ed25519 L (Sender_senderOTSecret self) R = Inr T"
    and "retrieve_entry L conceal self T (nonce (length es)) e = (e', Inr (i, c))"
  shows "retrieve L conceal nonce self R (es @ [e]) = (self, es' @ [e'], Inr (AList.update i c C))
       \<and> map_of (AList.update i c C) i = Some c
       \<and> length (AList.update i c C) = (if i \<in> fst ` set C then length C else Suc (length C))"
proof -
  from assms(1,2) have l: "retrieve_loop L conceal self T nonce 0 es [] = (es', Inr C)"
    by (simp add: retrieve_unfold)
  from retrieve_loop_append_ok [OF l, of "[e]"] assms(3)
  have "retrieve_loop L conceal self T nonce 0 (es @ [e]) [] = (es' @ [e'], Inr (AList.update i c C))"
    by (simp add: retrieve_loop_single)
  with assms(2) show ?thesis
    by (simp add: retrieve_unfold update_conv' length_alist_update)
qed

text \<open>
  C10. When \<open>retrieve\<close> has processed the entries \<open>es1\<close> and the loop body raises on
  the next entry, the call raises that exception and the entries are left as the loop
  left them: each entry of \<open>es1\<close> carries an \<open>indexOTU\<close>, the one cached during this
  call where it had none, the failing entry is as the loop body left it, and the entries
  after it are untouched.
\<close>

theorem retrieve_no_rollback:
  assumes "retrieve L conceal nonce self R es1 = (self, es1', Inr C1)"
    and "crypto_scalarmult_ed25519 L (Sender_senderOTSecret self) R = Inr T"
    and "retrieve_entry L conceal self T (nonce (length es1)) e = (e', Inl err)"
  shows "retrieve L conceal nonce self R (es1 @ e # es2) = (self, es1' @ e' # es2, Inl err)
       \<and> (\<forall>x\<in>set es1'. indexOTU x \<noteq> None)
       \<and> map index es1' = map index es1 \<and> map val es1' = map val es1"
proof -
  from assms(1,2) have l: "retrieve_loop L conceal self T nonce 0 es1 [] = (es1', Inr C1)"
    by (simp add: retrieve_unfold)
  from assms(3) have "retrieve_loop L conceal self T nonce (length es1) (e # es2) C1
      = (e' # es2, Inl err)"
    by simp
  with retrieve_loop_append_ok [OF l, of "e # es2"]
  have "retrieve_loop L conceal self T nonce 0 (es1 @ e # es2) [] = (es1' @ e' # es2, Inl err)"
    by simp
  with assms(2) retrieve_loop_all_cached [OF l] retrieve_loop_fields [OF l]
  show ?thesis
    by (simp add: retrieve_unfold)
qed

lemma pad32_long: "32 < length b \<Longrightarrow> pad32 b = b"
  by (simp add: pad32_def)

lemma retrieve_loop_mem_err:
  assumes "e \<in> set es" and "\<And>n. isl (snd (retrieve_entry L conceal self T n e))"
  shows "isl (snd (retrieve_loop L conceal self T nonce n es C0))"
proof -
  from assms(1) obtain es1 es2 where es: "es = es1 @ e # es2"
    by (auto dest: split_list)
  obtain es1' r1 where p: "retrieve_loop L conceal self T nonce n es1 C0 = (es1', r1)"
    by (cases "retrieve_loop L conceal self T nonce n es1 C0")
  show ?thesis
  proof (cases r1)
    case (Inl err)
    from retrieve_loop_append_err [OF p [unfolded Inl], of "e # es2"] es show ?thesis by simp
  next
    case (Inr C1)
    from assms(2) [of "nonce (n + length es1)"]
    have "isl (snd (retrieve_loop L conceal self T nonce (n + length es1) (e # es2) C1))"
      by (auto split: prod.splits sum.splits)
    with retrieve_loop_append_ok [OF p [unfolded Inr], of "e # es2"] es show ?thesis by simp
  qed
qed

text \<open>
  C3, as the code has it. Let the UTF-8 encoding of an index be longer than 32 bytes, and
  let the binding check the length of a scalar. Then \<open>getRequestOTKey\<close> on that index
  never returns a request key, and it raises \<open>TypeError\<close> when the two operations on
  the random scalar that come before the check return. The loop body of \<open>retrieve\<close>
  raises \<open>TypeError\<close> on an entry with that index that has no \<open>indexOTU\<close>, and
  leaves the entry as it is; \<open>retrieve\<close> returns no cipher dict for a list that contains
  such an entry. An entry that carries an \<open>indexOTU\<close> is not covered: the length of its
  index is never looked at.
\<close>

theorem oversized_index:
  assumes "scalar_length_law L" and "encode_utf8 L idx = Inr b" and "32 < length b"
  shows "isl (snd (getRequestOTKey L rcv idx sk))
       \<and> (crypto_scalarmult_ed25519_base L sk = Inr pk
            \<and> crypto_scalarmult_ed25519 L sk (Receiver_senderOTKey rcv) = Inr q
          \<longrightarrow> snd (getRequestOTKey L rcv idx sk) = Inl TypeError)
       \<and> (index e = idx \<and> indexOTU e = None
          \<longrightarrow> retrieve_entry L conceal self T n e = (e, Inl TypeError))
       \<and> (e \<in> set E \<and> index e = idx \<and> indexOTU e = None
          \<longrightarrow> isl (snd (snd (retrieve L conceal nonce self R E))))"
proof -
  from assms have m: "crypto_scalarmult_ed25519 L (pad32 b) p = Inl TypeError" for p
    by (simp add: scalar_length_law_def pad32_long)
  have 1: "isl (snd (getRequestOTKey L rcv idx sk))"
    by (simp add: getRequestOTKey_def assms(2) m Let_def split: sum.splits)
  have 2: "crypto_scalarmult_ed25519_base L sk = Inr pk
            \<and> crypto_scalarmult_ed25519 L sk (Receiver_senderOTKey rcv) = Inr q
          \<longrightarrow> snd (getRequestOTKey L rcv idx sk) = Inl TypeError"
    by (simp add: getRequestOTKey_def assms(2) m Let_def)
  have 3: "retrieve_entry L conceal self T n e = (e, Inl TypeError)"
    if "index e = idx" "indexOTU e = None" for T n
    using that by (simp add: retrieve_entry_def cache_indexOTU_def assms(2) m)
  have 4: "isl (snd (snd (retrieve L conceal nonce self R E)))"
    if e: "e \<in> set E" "index e = idx" "indexOTU e = None"
  proof (cases "crypto_scalarmult_ed25519 L (Sender_senderOTSecret self) R")
    case (Inl err)
    then show ?thesis by (simp add: retrieve_def)
  next
    case (Inr T')
    have "isl (snd (retrieve_loop L conceal self T' nonce 0 E []))"
      by (rule retrieve_loop_mem_err [OF e(1)]) (simp add: 3 [OF e(2,3)])
    with Inr show ?thesis by (simp add: retrieve_def)
  qed
  from 1 2 3 4 show ?thesis by blast
qed

text \<open>
  The claim C3 as stated, that \<open>retrieve\<close> fails on every entry list with an oversized
  index, is false on an entry with the index of 33 bytes that carries an \<open>indexOTU\<close>:
  the call returns a cipher dict.
\<close>

theorem oversized_index_counterexample:
  "encode_utf8 mini idx33 = Inr (replicate 33 97)
   \<and> map index entries_long = [idx33]
   \<and> snd (snd (retrieve mini True nonce0 sender0 request_a entries_long)) = Inr ciphers_long"
  by code_simp

text \<open>
  The claim C2 as stated, that two entries with the same index make the call fail, is
  false on the entries \<^verbatim>\<open>{"a": "x"}\<close> and \<^verbatim>\<open>{"a": "y"}\<close>: the call returns a cipher
  dict.
\<close>

theorem duplicate_index_counterexample:
  "map index entries_dup = [''a'', ''a'']
   \<and> snd (snd (retrieve mini True nonce0 sender0 request_a entries_dup)) = Inr ciphers_dup"
  by code_simp

lemma mini_T0:
  "crypto_scalarmult_ed25519 mini (Sender_senderOTSecret sender0) request_a = Inr (pt_enc 110)"
  by code_simp

text \<open>
  Witness for C2: the entries \<^verbatim>\<open>{"a": "x"}\<close> and \<^verbatim>\<open>{"a": "y"}\<close>; the cipher dict of the
  two has one item, the ciphertext of the second.
\<close>

theorem retrieve_no_duplicate_check_witness:
  "retrieve mini True nonce0 sender0 request_a [entry_a ''x'' None]
     = (sender0, [entry_a ''x'' (Some (pt_enc 33))], Inr [(key_a, box_a 0 [197])])
   \<and> retrieve_entry mini True sender0 (pt_enc 110) (nonce0 (length [entry_a ''x'' None]))
       (entry_a ''y'' None) = (entry_a ''y'' (Some (pt_enc 33)), Inr (key_a, box_a 1 [198]))
   \<and> index (entry_a ''y'' None) = index (entry_a ''x'' None)
   \<and> retrieve mini True nonce0 sender0 request_a ([entry_a ''x'' None] @ [entry_a ''y'' None])
     = (sender0, [entry_a ''x'' (Some (pt_enc 33))] @ [entry_a ''y'' (Some (pt_enc 33))],
        Inr (AList.update key_a (box_a 1 [198]) [(key_a, box_a 0 [197])]))
   \<and> AList.update key_a (box_a 1 [198]) [(key_a, box_a 0 [197])] = [(key_a, box_a 1 [198])]"
proof -
  have h1: "retrieve mini True nonce0 sender0 request_a [entry_a ''x'' None]
     = (sender0, [entry_a ''x'' (Some (pt_enc 33))], Inr [(key_a, box_a 0 [197])])"
    by code_simp
  have h3: "retrieve_entry mini True sender0 (pt_enc 110) (nonce0 (length [entry_a ''x'' None]))
       (entry_a ''y'' None) = (entry_a ''y'' (Some (pt_enc 33)), Inr (key_a, box_a 1 [198]))"
    by code_simp
  have i: "index (entry_a ''y'' None) = index (entry_a ''x'' None)"
    by (simp add: entry_a_def)
  from retrieve_no_duplicate_check [OF h1 mini_T0 h3] h1 h3 i show ?thesis
    by simp
qed

text \<open>
  Witness for C10: the entry \<^verbatim>\<open>"a"\<close> is cached, the entry with the index of 33 bytes
  raises, the entry \<^verbatim>\<open>"b"\<close> is not reached.
\<close>

theorem retrieve_no_rollback_witness:
  "retrieve mini True nonce0 sender0 request_a [entry_a ''hello'' None]
     = (sender0, [entry_a ''hello'' (Some (pt_enc 33))], Inr ciphers_a)
   \<and> retrieve_entry mini True sender0 (pt_enc 110) (nonce0 (length [entry_a ''hello'' None]))
       \<lparr>index = idx33, val = ''v'', indexOTU = None\<rparr>
     = (\<lparr>index = idx33, val = ''v'', indexOTU = None\<rparr>, Inl TypeError)
   \<and> retrieve mini True nonce0 sender0 request_a
       ([entry_a ''hello'' None] @ \<lparr>index = idx33, val = ''v'', indexOTU = None\<rparr>
          # [\<lparr>index = ''b'', val = ''w'', indexOTU = None\<rparr>])
     = (sender0,
        [entry_a ''hello'' (Some (pt_enc 33))] @ \<lparr>index = idx33, val = ''v'', indexOTU = None\<rparr>
          # [\<lparr>index = ''b'', val = ''w'', indexOTU = None\<rparr>],
        Inl TypeError)
   \<and> indexOTU (entry_a ''hello'' (Some (pt_enc 33))) \<noteq> None"
proof -
  have h1: "retrieve mini True nonce0 sender0 request_a [entry_a ''hello'' None]
     = (sender0, [entry_a ''hello'' (Some (pt_enc 33))], Inr ciphers_a)"
    by code_simp
  have h3: "retrieve_entry mini True sender0 (pt_enc 110) (nonce0 (length [entry_a ''hello'' None]))
       \<lparr>index = idx33, val = ''v'', indexOTU = None\<rparr>
     = (\<lparr>index = idx33, val = ''v'', indexOTU = None\<rparr>, Inl TypeError)"
    by code_simp
  from retrieve_no_rollback [OF h1 mini_T0 h3, of "[\<lparr>index = ''b'', val = ''w'', indexOTU = None\<rparr>]"]
    h1 h3 show ?thesis
    by simp
qed

text \<open>
  Witness for C3: the index of 33 letters \<^verbatim>\<open>a\<close>.
\<close>

theorem oversized_index_witness:
  "scalar_length_law mini
   \<and> encode_utf8 mini idx33 = Inr (replicate 33 97)
   \<and> 32 < length (replicate 33 (97 :: byte))
   \<and> crypto_scalarmult_ed25519_base mini x0 = Inr (pt_enc 11)
   \<and> crypto_scalarmult_ed25519 mini x0 (Receiver_senderOTKey (Receiver_init (pt_enc 7)))
       = Inr (pt_enc 77)
   \<and> snd (getRequestOTKey mini (Receiver_init (pt_enc 7)) idx33 x0) = Inl TypeError
   \<and> retrieve_entry mini True sender0 (pt_enc 110) (nonce0 1)
       \<lparr>index = idx33, val = ''v'', indexOTU = None\<rparr>
     = (\<lparr>index = idx33, val = ''v'', indexOTU = None\<rparr>, Inl TypeError)
   \<and> isl (snd (snd (retrieve mini True nonce0 sender0 request_a
        [entry_a ''hello'' None, \<lparr>index = idx33, val = ''v'', indexOTU = None\<rparr>])))"
proof -
  have h2: "encode_utf8 mini idx33 = Inr (replicate 33 97)"
    by code_simp
  have h3: "32 < length (replicate 33 (97 :: byte))"
    by simp
  have b: "crypto_scalarmult_ed25519_base mini x0 = Inr (pt_enc 11)"
    by code_simp
  have m: "crypto_scalarmult_ed25519 mini x0 (Receiver_senderOTKey (Receiver_init (pt_enc 7)))
       = Inr (pt_enc 77)"
    by code_simp
  from oversized_index [OF mini_scalar_length_law h2 h3, of "Receiver_init (pt_enc 7)" x0
      "pt_enc 11" "pt_enc 77" "\<lparr>index = idx33, val = ''v'', indexOTU = None\<rparr>" True sender0
      "pt_enc 110" "nonce0 1"
      "[entry_a ''hello'' None, \<lparr>index = idx33, val = ''v'', indexOTU = None\<rparr>]"
      nonce0 request_a]
    mini_scalar_length_law h2 h3 b m
  show ?thesis by simp
qed

subsection \<open>The cached indexOTU\<close>

text \<open>
  C8. For an entry without \<open>indexOTU\<close> on which the loop body returns, the value stored
  is the scalar multiplication of the padded index bytes with \<open>senderOTU\<close>, and nothing
  else of the entry changes. An entry that carries an \<open>indexOTU\<close> is left as it is and
  its ciphertext and response index are computed from the value it carries. Two entries
  with the same index and no \<open>indexOTU\<close> get the same value from the same sender,
  whatever the request, the nonce and the concealment flag. After a call of \<open>retrieve\<close>
  that returned, every entry carries an \<open>indexOTU\<close>, and a later call on these entries
  leaves all of them as they are.
\<close>

theorem indexOTU_caching:
  "(indexOTU e = None \<and> retrieve_entry L conceal self T n e = (e', Inr p) \<longrightarrow>
      (\<exists>b u. encode_utf8 L (index e) = Inr b
           \<and> crypto_scalarmult_ed25519 L (pad32 b) (Sender_senderOTU self) = Inr u
           \<and> e' = e\<lparr>indexOTU := Some u\<rparr>))
   \<and> (indexOTU ec = Some u \<longrightarrow>
        retrieve_entry L conceal self T n ec =
          (case encode_utf8 L (index ec) of
             Inl err \<Rightarrow> (ec, Inl err)
           | Inr b \<Rightarrow> (ec, seal_entry L conceal T n b ec u)))
   \<and> (indexOTU e = None \<and> retrieve_entry L conceal self T n e = (e', Inr p)
        \<and> indexOTU e2 = None \<and> index e2 = index e
        \<and> retrieve_entry L conceal2 self T2 n2 e2 = (e2', Inr p2)
      \<longrightarrow> indexOTU e2' = indexOTU e')
   \<and> (retrieve L conceal nonce self R E = (self, E1, Inr C1) \<longrightarrow>
        (\<forall>x\<in>set E1. indexOTU x \<noteq> None)
        \<and> fst (snd (retrieve L conceal2 nonce2 self R2 E1)) = E1)"
proof -
  have a: "\<exists>b u. encode_utf8 L (index e) = Inr b
           \<and> crypto_scalarmult_ed25519 L (pad32 b) (Sender_senderOTU self) = Inr u
           \<and> e' = e\<lparr>indexOTU := Some u\<rparr>"
    if "indexOTU e = None" "retrieve_entry L conceal self T n e = (e', Inr p)"
    for e e' p conceal T n
    using that by (auto simp: retrieve_entry_Inr cache_indexOTU_Inr)
  have b: "retrieve_entry L conceal self T n ec =
          (case encode_utf8 L (index ec) of
             Inl err \<Rightarrow> (ec, Inl err)
           | Inr b \<Rightarrow> (ec, seal_entry L conceal T n b ec u))"
    if "indexOTU ec = Some u"
    using that by (simp add: retrieve_entry_def cache_indexOTU_def split: sum.splits)
  have c: "indexOTU e2' = indexOTU e'"
    if "indexOTU e = None" "retrieve_entry L conceal self T n e = (e', Inr p)"
      "indexOTU e2 = None" "index e2 = index e"
      "retrieve_entry L conceal2 self T2 n2 e2 = (e2', Inr p2)"
    using a [OF that(1,2)] a [OF that(3,5)] that(4) by auto
  have d: "(\<forall>x\<in>set E1. indexOTU x \<noteq> None)
        \<and> fst (snd (retrieve L conceal2 nonce2 self R2 E1)) = E1"
    if r: "retrieve L conceal nonce self R E = (self, E1, Inr C1)"
  proof -
    from retrieve_InrD [OF r] obtain T' where
      "retrieve_loop L conceal self T' nonce 0 E [] = (E1, Inr C1)" by blast
    then have all: "\<forall>x\<in>set E1. indexOTU x \<noteq> None"
      by (rule retrieve_loop_all_cached)
    then have "fst (snd (retrieve L conceal2 nonce2 self R2 E1)) = E1"
      by (cases "crypto_scalarmult_ed25519 L (Sender_senderOTSecret self) R2")
         (simp_all add: retrieve_def retrieve_loop_keeps_cached)
    with all show ?thesis by simp
  qed
  from a b c d show ?thesis by blast
qed

text \<open>
  Witness for C8: the entry \<^verbatim>\<open>{"a": "hello"}\<close> without and with its \<open>indexOTU\<close>, and
  the entry \<^verbatim>\<open>{"a": "x"}\<close> in a second round.
\<close>

theorem indexOTU_caching_witness:
  "indexOTU (entry_a ''hello'' None) = None
   \<and> retrieve_entry mini True sender0 (pt_enc 110) (nonce0 0) (entry_a ''hello'' None)
       = (entry_a ''hello'' (Some (pt_enc 33)), Inr (key_a, box_a 0 [181, 178, 185, 185, 188]))
   \<and> (\<exists>b u. encode_utf8 mini (index (entry_a ''hello'' None)) = Inr b
         \<and> crypto_scalarmult_ed25519 mini (pad32 b) (Sender_senderOTU sender0) = Inr u
         \<and> entry_a ''hello'' (Some (pt_enc 33)) = (entry_a ''hello'' None)\<lparr>indexOTU := Some u\<rparr>)
   \<and> retrieve_entry mini True sender0 (pt_enc 110) (nonce0 0) (entry_a ''hello'' (Some (pt_enc 33)))
       = (entry_a ''hello'' (Some (pt_enc 33)), Inr (key_a, box_a 0 [181, 178, 185, 185, 188]))
   \<and> retrieve_entry mini False sender0 (pt_enc 180) (nonce0 5) (entry_a ''x'' None)
       = (entry_a ''x'' (Some (pt_enc 33)),
          Inr (StrKey ''a'', nonce0 5 @ 147 # replicate 15 0 @ [11]))
   \<and> indexOTU (entry_a ''x'' (Some (pt_enc 33))) = indexOTU (entry_a ''hello'' (Some (pt_enc 33)))
   \<and> retrieve mini True nonce0 sender0 request_a entries_a
       = (sender0, [entry_a ''hello'' (Some (pt_enc 33))], Inr ciphers_a)
   \<and> fst (snd (retrieve mini False nonce0 sender0 (pt_enc 205)
        [entry_a ''hello'' (Some (pt_enc 33))])) = [entry_a ''hello'' (Some (pt_enc 33))]"
proof -
  have h1: "indexOTU (entry_a ''hello'' None) = None"
    by (simp add: entry_a_def)
  have h2: "retrieve_entry mini True sender0 (pt_enc 110) (nonce0 0) (entry_a ''hello'' None)
       = (entry_a ''hello'' (Some (pt_enc 33)), Inr (key_a, box_a 0 [181, 178, 185, 185, 188]))"
    by code_simp
  have h3: "indexOTU (entry_a ''hello'' (Some (pt_enc 33))) = Some (pt_enc 33)"
    by (simp add: entry_a_def)
  have h4: "indexOTU (entry_a ''x'' None) = None
      \<and> index (entry_a ''x'' None) = index (entry_a ''hello'' None)"
    by (simp add: entry_a_def)
  have h5: "retrieve_entry mini False sender0 (pt_enc 180) (nonce0 5) (entry_a ''x'' None)
       = (entry_a ''x'' (Some (pt_enc 33)),
          Inr (StrKey ''a'', nonce0 5 @ 147 # replicate 15 0 @ [11]))"
    by code_simp
  have h6: "retrieve mini True nonce0 sender0 request_a entries_a
       = (sender0, [entry_a ''hello'' (Some (pt_enc 33))], Inr ciphers_a)"
    by code_simp
  have s: "seal_entry mini True (pt_enc 110) (nonce0 0) (map (\<lambda>c. of_nat (of_char c)) ''a'')
       (entry_a ''hello'' (Some (pt_enc 33))) (pt_enc 33)
       = Inr (key_a, box_a 0 [181, 178, 185, 185, 188])"
    by code_simp
  have i: "index (entry_a ''hello'' (Some (pt_enc 33))) = ''a''"
    by (simp add: entry_a_def)
  from indexOTU_caching [of "entry_a ''hello'' None" mini True sender0 "pt_enc 110" "nonce0 0"
      "entry_a ''hello'' (Some (pt_enc 33))" "(key_a, box_a 0 [181, 178, 185, 185, 188])"
      "entry_a ''hello'' (Some (pt_enc 33))" "pt_enc 33"
      "entry_a ''x'' None" False "pt_enc 180" "nonce0 5" "entry_a ''x'' (Some (pt_enc 33))"
      "(StrKey ''a'', nonce0 5 @ 147 # replicate 15 0 @ [11])"
      nonce0 request_a entries_a "[entry_a ''hello'' (Some (pt_enc 33))]" ciphers_a nonce0
      "pt_enc 205"]
    h1 h2 h3 h4 h5 h6 s i
  show ?thesis
    by (simp add: mini_simps mini_encode_def)
qed

subsection \<open>Errors and results of the two loops\<close>








subsection \<open>Key agreement\<close>






subsection \<open>The runs with three entries\<close>

lemma shared_secret_k2:
  "crypto_scalarmult_ed25519 mini (Sender_senderOTSecret sender0) request_k2 = Inr (pt_enc 38)"
  by code_simp

lemma ciphers_k2_returned:
  "retrieve mini True nonce0 sender0 request_k2 entries_k
     = (sender0,
        [\<lparr>index = ''k1'', val = ''v1'', indexOTU = Some (pt_enc 163)\<rparr>,
         \<lparr>index = ''k2'', val = ''v2'', indexOTU = Some (pt_enc 212)\<rparr>,
         \<lparr>index = ''k3'', val = ''v3'', indexOTU = Some (pt_enc 10)\<rparr>],
        Inr ciphers_k2)"
proof -
  have e1: "retrieve_entry mini True sender0 (pt_enc 38) (nonce0 0)
        \<lparr>index = ''k1'', val = ''v1'', indexOTU = None\<rparr>
      = (\<lparr>index = ''k1'', val = ''v1'', indexOTU = Some (pt_enc 163)\<rparr>,
         Inr (BytesKey (233 # 49 # replicate 30 0),
              replicate 24 0 @ 126 # replicate 15 0 @ [244, 175]))"
    by code_simp
  have e2: "retrieve_entry mini True sender0 (pt_enc 38) (nonce0 (Suc 0))
        \<lparr>index = ''k2'', val = ''v2'', indexOTU = None\<rparr>
      = (\<lparr>index = ''k2'', val = ''v2'', indexOTU = Some (pt_enc 212)\<rparr>,
         Inr (BytesKey (184 # 50 # replicate 30 0),
              replicate 24 1 @ 77 # replicate 15 0 @ [195, 127]))"
    by code_simp
  have e3: "retrieve_entry mini True sender0 (pt_enc 38) (nonce0 (Suc (Suc 0)))
        \<lparr>index = ''k3'', val = ''v3'', indexOTU = None\<rparr>
      = (\<lparr>index = ''k3'', val = ''v3'', indexOTU = Some (pt_enc 10)\<rparr>,
         Inr (BytesKey (135 # 51 # replicate 30 0),
              replicate 24 2 @ 28 # replicate 15 0 @ [146, 79]))"
    by code_simp
  show ?thesis
    by (simp add: retrieve_def shared_secret_k2 entries_k_def ciphers_k2_def e1 e2 e3)
qed

lemma entries_kb_left:
  "retrieve mini True nonce0 sender_b (pt_enc 5) entries_k
     = (sender_b, entries_kb,
        Inr [(BytesKey (242 # 49 # replicate 30 0),
              replicate 24 0 @ 135 # replicate 15 0 @ [253, 184]),
             (BytesKey (238 # 50 # replicate 30 0),
              replicate 24 1 @ 131 # replicate 15 0 @ [249, 181]),
             (BytesKey (234 # 51 # replicate 30 0),
              replicate 24 2 @ 127 # replicate 15 0 @ [245, 178])])"
proof -
  have T: "crypto_scalarmult_ed25519 mini (Sender_senderOTSecret sender_b) (pt_enc 5)
      = Inr (pt_enc 10)"
    by code_simp
  have e1: "retrieve_entry mini True sender_b (pt_enc 10) (nonce0 0)
        \<lparr>index = ''k1'', val = ''v1'', indexOTU = None\<rparr>
      = (\<lparr>index = ''k1'', val = ''v1'', indexOTU = Some (pt_enc 126)\<rparr>,
         Inr (BytesKey (242 # 49 # replicate 30 0),
              replicate 24 0 @ 135 # replicate 15 0 @ [253, 184]))"
    by code_simp
  have e2: "retrieve_entry mini True sender_b (pt_enc 10) (nonce0 (Suc 0))
        \<lparr>index = ''k2'', val = ''v2'', indexOTU = None\<rparr>
      = (\<lparr>index = ''k2'', val = ''v2'', indexOTU = Some (pt_enc 130)\<rparr>,
         Inr (BytesKey (238 # 50 # replicate 30 0),
              replicate 24 1 @ 131 # replicate 15 0 @ [249, 181]))"
    by code_simp
  have e3: "retrieve_entry mini True sender_b (pt_enc 10) (nonce0 (Suc (Suc 0)))
        \<lparr>index = ''k3'', val = ''v3'', indexOTU = None\<rparr>
      = (\<lparr>index = ''k3'', val = ''v3'', indexOTU = Some (pt_enc 134)\<rparr>,
         Inr (BytesKey (234 # 51 # replicate 30 0),
              replicate 24 2 @ 127 # replicate 15 0 @ [245, 178]))"
    by code_simp
  show ?thesis
    by (simp add: retrieve_def T entries_k_def entries_kb_def e1 e2 e3)
qed

lemma request_k2_built:
  "getRequestOTKey mini (Receiver_init (snd (register sender0))) ''k2'' x0
     = (receiver_k2, Inr request_k2)"
  by code_simp

lemma ciphers_kb_returned:
  "snd (snd (retrieve mini True nonce0 sender0 request_k2 entries_kb)) = Inr ciphers_kb"
  by code_simp

subsection \<open>Response indices and the round trip\<close>








text \<open>
  The claim C7 as stated is false on the entry \<^verbatim>\<open>k2\<close> that carries the \<^verbatim>\<open>'indexOTU'\<close>
  which a call of \<open>retrieve\<close> of the sender \<open>sender_b\<close> left on it: the response index
  that \<open>sender0\<close> computes for it, for the request of a receiver that chose \<^verbatim>\<open>k2\<close>, is
  not the key that this receiver looks up for \<^verbatim>\<open>k2\<close>.
\<close>

theorem concealed_index_agreement_counterexample:
  "fst (snd (retrieve mini True nonce0 sender_b (pt_enc 5) entries_k)) = entries_kb
   \<and> \<lparr>index = ''k2'', val = ''v2'', indexOTU = Some (pt_enc 130)\<rparr> \<in> set entries_kb
   \<and> getRequestOTKey mini (Receiver_init (snd (register sender0))) ''k2'' x0
       = (receiver_k2, Inr request_k2)
   \<and> crypto_scalarmult_ed25519 mini (Sender_senderOTSecret sender0) request_k2
       = Inr (pt_enc 38)
   \<and> snd (retrieve_entry mini True sender0 (pt_enc 38) (nonce0 1)
         \<lparr>index = ''k2'', val = ''v2'', indexOTU = Some (pt_enc 130)\<rparr>)
       = Inr (BytesKey (10 # 50 # replicate 30 0),
              replicate 24 1 @ 159 # replicate 15 0 @ [21, 209])
   \<and> map_of (Receiver_otSecrets receiver_k2) ''k2'' = Some (pt_enc 77)
   \<and> lookup_key mini True ''k2'' (pt_enc 77) = Inr (BytesKey (184 # 50 # replicate 30 0))
   \<and> BytesKey (10 # 50 # replicate 30 0) \<noteq> BytesKey (184 # 50 # replicate 30 0)"
proof -
  have 1: "fst (snd (retrieve mini True nonce0 sender_b (pt_enc 5) entries_k)) = entries_kb"
    by (simp add: entries_kb_left)
  have 2: "\<lparr>index = ''k2'', val = ''v2'', indexOTU = Some (pt_enc 130)\<rparr> \<in> set entries_kb"
    by (simp add: entries_kb_def)
  have 5: "snd (retrieve_entry mini True sender0 (pt_enc 38) (nonce0 1)
         \<lparr>index = ''k2'', val = ''v2'', indexOTU = Some (pt_enc 130)\<rparr>)
       = Inr (BytesKey (10 # 50 # replicate 30 0),
              replicate 24 1 @ 159 # replicate 15 0 @ [21, 209])"
    by code_simp
  have 6: "map_of (Receiver_otSecrets receiver_k2) ''k2'' = Some (pt_enc 77)"
    by (simp add: receiver_k2_def)
  have 7: "lookup_key mini True ''k2'' (pt_enc 77) = Inr (BytesKey (184 # 50 # replicate 30 0))"
    by code_simp
  have 8: "BytesKey (10 # 50 # replicate 30 0) \<noteq> BytesKey (184 # 50 # replicate 30 (0 :: byte))"
    by simp
  show ?thesis
    by (intro conjI 1 2 request_k2_built shared_secret_k2 5 6 7 8)
qed



text \<open>
  The claim C1 as stated is false on two runs with the distinct indices \<^verbatim>\<open>k1\<close>,
  \<^verbatim>\<open>k2\<close>, \<^verbatim>\<open>k3\<close> and the chosen index \<^verbatim>\<open>k2\<close>. In the first, the entries carry the
  \<^verbatim>\<open>'indexOTU'\<close> that a call of \<open>retrieve\<close> of the sender \<open>sender_b\<close> left on them:
  \<open>retrieve\<close> of \<open>sender0\<close> uses these values as they are, the new receiver finds no
  ciphertext under its lookup key, and \<open>decryptResponse\<close> raises. In the second, the
  entries are fresh and the receiver holds the secret of an earlier request for \<^verbatim>\<open>k1\<close>:
  \<open>decryptResponse\<close> goes through every stored secret and raises on the first.
\<close>

theorem round_trip_counterexample:
  "Sender_init mini yb = Inr sender_b
   \<and> fst (snd (retrieve mini True nonce0 sender_b (pt_enc 5) entries_k)) = entries_kb
   \<and> distinct (map index entries_kb)
   \<and> \<lparr>index = ''k2'', val = ''v2'', indexOTU = Some (pt_enc 130)\<rparr> \<in> set entries_kb
   \<and> Sender_init mini y0 = Inr sender0
   \<and> getRequestOTKey mini (Receiver_init (snd (register sender0))) ''k2'' x0
       = (receiver_k2, Inr request_k2)
   \<and> snd (snd (retrieve mini True nonce0 sender0 request_k2 entries_kb)) = Inr ciphers_kb
   \<and> length ciphers_kb = length entries_kb
   \<and> snd (decryptResponse mini True receiver_k2 ciphers_kb) = Inl KeyError
   \<and> getRequestOTKey mini (Receiver_init (snd (register sender0))) ''k1'' x1
       = (receiver_k1, Inr (pt_enc 116))
   \<and> getRequestOTKey mini receiver_k1 ''k2'' x0 = (receiver_k12, Inr request_k2)
   \<and> distinct (map index entries_k)
   \<and> \<lparr>index = ''k2'', val = ''v2'', indexOTU = None\<rparr> \<in> set entries_k
   \<and> snd (snd (retrieve mini True nonce0 sender0 request_k2 entries_k)) = Inr ciphers_k2
   \<and> length ciphers_k2 = length entries_k
   \<and> snd (decryptResponse mini True receiver_k12 ciphers_k2) = Inl KeyError"
proof -
  have 1: "Sender_init mini yb = Inr sender_b"
    by code_simp
  have 2: "fst (snd (retrieve mini True nonce0 sender_b (pt_enc 5) entries_k)) = entries_kb"
    by (simp add: entries_kb_left)
  have 3: "distinct (map index entries_kb)"
    by (simp add: entries_kb_def)
  have 4: "\<lparr>index = ''k2'', val = ''v2'', indexOTU = Some (pt_enc 130)\<rparr> \<in> set entries_kb"
    by (simp add: entries_kb_def)
  have 7: "length ciphers_kb = length entries_kb"
    by (simp add: ciphers_kb_def entries_kb_def)
  have 8: "snd (decryptResponse mini True receiver_k2 ciphers_kb) = Inl KeyError"
    by code_simp
  have 9: "getRequestOTKey mini (Receiver_init (snd (register sender0))) ''k1'' x1
       = (receiver_k1, Inr (pt_enc 116))"
    by code_simp
  have 10: "getRequestOTKey mini receiver_k1 ''k2'' x0 = (receiver_k12, Inr request_k2)"
    by code_simp
  have 11: "distinct (map index entries_k)"
    by (simp add: entries_k_def)
  have 12: "\<lparr>index = ''k2'', val = ''v2'', indexOTU = None\<rparr> \<in> set entries_k"
    by (simp add: entries_k_def)
  have 13: "snd (snd (retrieve mini True nonce0 sender0 request_k2 entries_k)) = Inr ciphers_k2"
    by (simp add: ciphers_k2_returned)
  have 14: "length ciphers_k2 = length entries_k"
    by (simp add: ciphers_k2_def entries_k_def)
  have 15: "snd (decryptResponse mini True receiver_k12 ciphers_k2) = Inl KeyError"
    by code_simp
  show ?thesis
    by (intro conjI 1 2 3 4 Sender_init_sender0 request_k2_built ciphers_kb_returned
          7 8 9 10 11 12 13 14 15)
qed

subsection \<open>Asking again for the same index\<close>






text \<open>
  The claim C9 as stated is false on a second request for \<^verbatim>\<open>"a"\<close> with the random bytes
  \<open>x0b\<close>, which are not those of the first request and act as the same scalar: the secret
  stored is the one that was there, and \<open>decryptResponse\<close> still decrypts the cipher dict
  that \<open>retrieve\<close> returned for the first request.
\<close>

theorem re_request_counterexample:
  "x0b \<noteq> x0
   \<and> getRequestOTKey mini (Receiver_init (snd (register sender0))) ''a'' x0
       = (receiver_a, Inr request_a)
   \<and> snd (snd (retrieve mini True nonce0 sender0 request_a entries_a)) = Inr ciphers_a
   \<and> map_of (Receiver_otSecrets receiver_a) ''a'' = Some (pt_enc 77)
   \<and> getRequestOTKey mini receiver_a ''a'' x0b = (receiver_a, Inr request_a)
   \<and> snd (decryptResponse mini True receiver_a ciphers_a) = Inr [(''a'', ''hello'')]"
proof -
  have 1: "x0b \<noteq> x0"
    by (simp add: x0b_def x0_def)
  have 2: "getRequestOTKey mini (Receiver_init (snd (register sender0))) ''a'' x0
       = (receiver_a, Inr request_a)"
    by code_simp
  have 3: "snd (snd (retrieve mini True nonce0 sender0 request_a entries_a)) = Inr ciphers_a"
    by code_simp
  have 4: "map_of (Receiver_otSecrets receiver_a) ''a'' = Some (pt_enc 77)"
    by (simp add: receiver_a_def)
  have 5: "getRequestOTKey mini receiver_a ''a'' x0b = (receiver_a, Inr request_a)"
    by code_simp
  have 6: "snd (decryptResponse mini True receiver_a ciphers_a) = Inr [(''a'', ''hello'')]"
    by code_simp
  show ?thesis
    by (intro conjI 1 2 3 4 5 6)
qed

end
